theory Spec2Isabelle
  imports Main "HOL-Library.Multiset" "HOL-Library.Sublist" "HOL-Library.Log_Nat"
begin

section \<open>The record store (\<^verbatim>\<open>_db.js\<close>)\<close>

text \<open>
  The three collections hold plain objects of a fixed shape, the one the schema
  (\<^verbatim>\<open>schema.js\<close>) declares. Each shape is a record; the JavaScript field \<^verbatim>\<open>id\<close>
  is written \<open>id_game\<close>, \<open>id_author\<close>, \<open>id_review\<close>, since \<open>id\<close> is the identity
  function of HOL. Identifiers are strings, compared with \<^verbatim>\<open>===\<close>, which on two strings
  is equality.
\<close>

record game =
  id_game :: string
  title :: string
  platform :: "string list"

record author =
  id_author :: string
  name :: string
  verified :: bool

record review =
  id_review :: string
  rating :: int
  content :: string
  author_id :: string
  game_id :: string

text \<open>
  The default export \<^verbatim>\<open>{ games, authors, reviews }\<close>: one object with three array-valued
  properties. The arrays are lists in insertion order. A resolver that assigns
  \<^verbatim>\<open>db.games = ...\<close> or calls \<^verbatim>\<open>db.games.push\<close> returns the store it leaves behind.
\<close>

record db =
  games :: "game list"
  authors :: "author list"
  reviews :: "review list"

definition games_seed :: "game list" where
  "games_seed =
    [\<lparr>id_game = ''1'', title = ''Legend of Code'', platform = [''PC'', ''Switch'']\<rparr>,
     \<lparr>id_game = ''2'', title = ''Bug Hunter 3000'', platform = [''Xbox'', ''PlayStation'']\<rparr>,
     \<lparr>id_game = ''3'', title = ''Terminal Quest'', platform = [''PC'']\<rparr>]"

definition authors_seed :: "author list" where
  "authors_seed =
    [\<lparr>id_author = ''201'', name = ''Alice Devlin'', verified = True\<rparr>,
     \<lparr>id_author = ''202'', name = ''Bob Coder'', verified = False\<rparr>,
     \<lparr>id_author = ''203'', name = ''Charlie Script'', verified = True\<rparr>]"

definition reviews_seed :: "review list" where
  "reviews_seed =
    [\<lparr>id_review = ''101'', rating = 5,
      content = ''Absolutely loved the gameplay and story!'',
      author_id = ''201'', game_id = ''1''\<rparr>,
     \<lparr>id_review = ''102'', rating = 3,
      content = ''Fun mechanics but gets repetitive after a while.'',
      author_id = ''202'', game_id = ''2''\<rparr>,
     \<lparr>id_review = ''103'', rating = 4,
      content = ''Solid experience, great graphics and soundtrack.'',
      author_id = ''203'', game_id = ''3''\<rparr>,
     \<lparr>id_review = ''104'', rating = 2,
      content = ''Too many bugs, felt unfinished.'',
      author_id = ''202'', game_id = ''1''\<rparr>]"

definition db_seed :: db where
  "db_seed = \<lparr>games = games_seed, authors = authors_seed, reviews = reviews_seed\<rparr>"

section \<open>Query resolvers (\<^verbatim>\<open>index.js\<close>, \<^verbatim>\<open>Query\<close>)\<close>

text \<open>
  \<^verbatim>\<open>Array.prototype.find\<close> returns the first element that satisfies the callback, or
  \<^verbatim>\<open>undefined\<close>; \<open>List.find\<close> returns it as an option. The specification calls these
  resolvers \<open>listGames\<close>, \<open>listReviews\<close>, \<open>listAuthors\<close>, \<open>findReviewById\<close>,
  \<open>findGameById\<close> and \<open>findAuthorById\<close>.
\<close>

definition Query_games :: "db \<Rightarrow> game list" where
  "Query_games d = games d"

definition Query_reviews :: "db \<Rightarrow> review list" where
  "Query_reviews d = reviews d"

definition Query_authors :: "db \<Rightarrow> author list" where
  "Query_authors d = authors d"

definition Query_review :: "string \<Rightarrow> db \<Rightarrow> review option" where
  "Query_review args_id d = List.find (\<lambda>review. id_review review = args_id) (reviews d)"

definition Query_game :: "string \<Rightarrow> db \<Rightarrow> game option" where
  "Query_game args_id d = List.find (\<lambda>game. id_game game = args_id) (games d)"

definition Query_author :: "string \<Rightarrow> db \<Rightarrow> author option" where
  "Query_author args_id d = List.find (\<lambda>author. id_author author = args_id) (authors d)"

section \<open>Nested resolvers (\<^verbatim>\<open>Game\<close>, \<^verbatim>\<open>Author\<close>, \<^verbatim>\<open>Review\<close>)\<close>

text \<open>
  The specification's \<open>reviewsForGame\<close>, \<open>reviewsForAuthor\<close>, \<open>authorOfReview\<close> and
  \<open>gameOfReview\<close>. Each receives the parent object and reads the store.
\<close>

definition Game_reviews :: "game \<Rightarrow> db \<Rightarrow> review list" where
  "Game_reviews parent d = filter (\<lambda>review. game_id review = id_game parent) (reviews d)"

definition Author_reviews :: "author \<Rightarrow> db \<Rightarrow> review list" where
  "Author_reviews parent d = filter (\<lambda>review. author_id review = id_author parent) (reviews d)"

definition Review_author :: "review \<Rightarrow> db \<Rightarrow> author option" where
  "Review_author parent d = List.find (\<lambda>author. id_author author = author_id parent) (authors d)"

definition Review_game :: "review \<Rightarrow> db \<Rightarrow> game option" where
  "Review_game parent d = List.find (\<lambda>game. id_game game = game_id parent) (games d)"

section \<open>Numbers: \<^verbatim>\<open>Math.floor(Math.random() * 10000).toString()\<close>\<close>

text \<open>
  A JavaScript Number is an IEEE 754 binary64 value. The identifier expression only meets
  finite values that are not negative, so a number is a significand and an exponent and
  stands for \<open>mant * 2 ^ expo\<close>. A binary64 value has a significand below \<open>2 ^ 53\<close> and
  an exponent from \<open>-1074\<close> (the subnormals) to \<open>971\<close>.
\<close>

record double =
  mant :: nat
  expo :: int

definition is_double :: "double \<Rightarrow> bool" where
  "is_double x \<longleftrightarrow> mant x < 2 ^ 53 \<and> - 1074 \<le> expo x \<and> expo x \<le> 971"

text \<open>
  \<^verbatim>\<open>Math.random()\<close> returns a Number that is at least \<open>0\<close> and strictly below \<open>1\<close>,
  chosen by the engine. The draw is an argument of the resolver that uses it;
  \<open>below_one\<close> is the range the language guarantees for it.
\<close>

definition below_one :: "double \<Rightarrow> bool" where
  "below_one x \<longleftrightarrow> mant x = 0 \<or> (expo x < 0 \<and> mant x < 2 ^ nat (- expo x))"

definition Math_random_result :: "double \<Rightarrow> bool" where
  "Math_random_result x \<longleftrightarrow> is_double x \<and> below_one x"

text \<open>
  Rounding of the exact value \<open>M * 2 ^ E\<close> to binary64, to nearest with ties to even:
  \<open>s\<close> low bits are dropped, as many as it takes to bring the significand under
  \<open>2 ^ 53\<close> and the exponent up to \<open>-1074\<close>. The dropped part \<open>r\<close> is compared with half of
  the last kept place. (A result of \<open>2 ^ 1024\<close> or more would be \<^verbatim>\<open>Infinity\<close>; the
  products formed here stay below \<open>2 ^ 14\<close>.)
\<close>

definition round_nearest_even :: "nat \<Rightarrow> int \<Rightarrow> double" where
  "round_nearest_even M E =
    (let s = nat (max (bitlen (int M) - 53) (- 1074 - E)) in
     if s = 0 then \<lparr>mant = M, expo = E\<rparr>
     else
       let q = M div 2 ^ s;
           r = M mod 2 ^ s;
           h = 2 ^ (s - 1);
           q' = (if h < r \<or> (r = h \<and> odd q) then q + 1 else q)
       in if q' = 2 ^ 53 then \<lparr>mant = 2 ^ 52, expo = E + int s + 1\<rparr>
          else \<lparr>mant = q', expo = E + int s\<rparr>)"

definition double_mul :: "double \<Rightarrow> double \<Rightarrow> double" where
  "double_mul x y = round_nearest_even (mant x * mant y) (expo x + expo y)"

definition ten_thousand :: double where
  "ten_thousand = \<lparr>mant = 10000, expo = 0\<rparr>"

text \<open>\<^verbatim>\<open>Math.floor\<close> of a number that is not negative: the integer below it.\<close>

definition Math_floor :: "double \<Rightarrow> nat" where
  "Math_floor x =
    (if 0 \<le> expo x then mant x * 2 ^ nat (expo x) else mant x div 2 ^ nat (- expo x))"

text \<open>
  \<^verbatim>\<open>Number.prototype.toString\<close> of an integer that is not negative and below \<open>10 ^ 21\<close>:
  its decimal digits, most significant first, without leading zeros.
\<close>

definition digit_char :: "nat \<Rightarrow> char" where
  "digit_char k = ''0123456789'' ! k"

fun toString :: "nat \<Rightarrow> string" where
  "toString n = (if n < 10 then [digit_char n] else toString (n div 10) @ [digit_char (n mod 10)])"

declare toString.simps [simp del]

section \<open>Mutation resolvers (\<^verbatim>\<open>index.js\<close>, \<^verbatim>\<open>Mutation\<close>)\<close>

text \<open>
  The arguments have the shapes of the schema's input types. \<^verbatim>\<open>AddGameInput\<close> has the two
  required fields \<^verbatim>\<open>title\<close> and \<^verbatim>\<open>platform\<close>; in \<^verbatim>\<open>EditGameInput\<close> each of the two is
  optional, and \<open>None\<close> is a field the client left out. The fields hold strings, as the
  schema's \<^verbatim>\<open>String\<close> and \<^verbatim>\<open>[String!]\<close> say; an edit that spells a field out as
  \<^verbatim>\<open>null\<close> is not among these values.
\<close>

record add_game_input =
  title_in :: string
  platform_in :: "string list"

record edit_game_input =
  title_ed :: "string option"
  platform_ed :: "string list option"

text \<open>
  The object spread \<^verbatim>\<open>{ ...game, ...args.edits }\<close>: a copy of \<^verbatim>\<open>game\<close> in which every
  field that \<^verbatim>\<open>args.edits\<close> has takes the value from there.
\<close>

definition spread_edits :: "game \<Rightarrow> edit_game_input \<Rightarrow> game" where
  "spread_edits game args_edits =
    game\<lparr>title := (case title_ed args_edits of None \<Rightarrow> title game | Some t \<Rightarrow> t),
         platform := (case platform_ed args_edits of None \<Rightarrow> platform game | Some p \<Rightarrow> p)\<rparr>"

text \<open>Each mutation returns the resolver's result and the store after the call.\<close>

definition Mutation_deleteGame :: "string \<Rightarrow> db \<Rightarrow> game list \<times> db" where
  "Mutation_deleteGame args_id d =
    (let d' = d\<lparr>games := filter (\<lambda>game. id_game game \<noteq> args_id) (games d)\<rparr>
     in (games d', d'))"

definition Mutation_addGame :: "double \<Rightarrow> add_game_input \<Rightarrow> db \<Rightarrow> game \<times> db" where
  "Mutation_addGame random args_game d =
    (let game = \<lparr>id_game = toString (Math_floor (double_mul random ten_thousand)),
                 title = title_in args_game,
                 platform = platform_in args_game\<rparr>;
         d' = d\<lparr>games := games d @ [game]\<rparr>
     in (game, d'))"

definition Mutation_updateGame :: "string \<Rightarrow> edit_game_input \<Rightarrow> db \<Rightarrow> game option \<times> db" where
  "Mutation_updateGame args_id args_edits d =
    (let d' = d\<lparr>games := map (\<lambda>game. if id_game game = args_id
                                     then spread_edits game args_edits else game) (games d)\<rparr>
     in (List.find (\<lambda>game. id_game game = args_id) (games d'), d'))"

text \<open>
  The callback that \<^verbatim>\<open>updateGame\<close> hands to \<^verbatim>\<open>map\<close>, under a name of its own for the
  proofs.
\<close>

definition edit_matching :: "string \<Rightarrow> edit_game_input \<Rightarrow> game \<Rightarrow> game" where
  "edit_matching args_id args_edits game =
    (if id_game game = args_id then spread_edits game args_edits else game)"

section \<open>Reading decimal digits back\<close>

text \<open>
  The number that a string of decimal digits denotes, as \<^verbatim>\<open>parseInt\<close> reads it. No resolver
  calls it; it says what the strings that \<open>toString\<close> writes stand for.
\<close>

definition digit_value :: "char \<Rightarrow> nat" where
  "digit_value c = of_char c - 48"

definition parse_decimal :: "string \<Rightarrow> nat" where
  "parse_decimal cs = foldl (\<lambda>a c. 10 * a + digit_value c) 0 cs"

section \<open>The identifiers that \<^verbatim>\<open>addGame\<close> can generate\<close>

text \<open>
  Every identifier that some call of \<^verbatim>\<open>addGame\<close> gives its new game, over all draws that
  \<^verbatim>\<open>Math.random()\<close> may return, all inputs and all stores.
\<close>

definition generated_ids :: "string set" where
  "generated_ids =
    {id_game (fst (Mutation_addGame random args_game d)) | random args_game d.
       Math_random_result random}"

section \<open>Decimal digits\<close>

lemma toString_small: "n < 10 \<Longrightarrow> toString n = [digit_char n]"
  by (subst toString.simps) simp

lemma toString_large: "10 \<le> n \<Longrightarrow> toString n = toString (n div 10) @ [digit_char (n mod 10)]"
  by (subst toString.simps) simp

lemma toString_not_Nil: "toString n \<noteq> []"
  by (subst toString.simps) simp

lemma length_toString: "0 < k \<Longrightarrow> n < 10 ^ k \<Longrightarrow> length (toString n) \<le> k"
proof (induction k arbitrary: n)
  case 0
  then show ?case by simp
next
  case (Suc k)
  show ?case
  proof (cases "n < 10")
    case True
    then show ?thesis by (simp add: toString_small)
  next
    case False
    then have k: "0 < k" using Suc.prems by (cases k) auto
    from Suc.prems have "n div 10 < 10 ^ k"
      by (simp add: less_mult_imp_div_less mult.commute)
    with k have "length (toString (n div 10)) \<le> k" by (rule Suc.IH)
    with False show ?thesis by (simp add: toString_large)
  qed
qed

lemma digit_char_is_digit: "k < 10 \<Longrightarrow> digit_char k \<in> set ''0123456789''"
  unfolding digit_char_def by (rule nth_mem) simp

lemma toString_digits: "set (toString n) \<subseteq> set ''0123456789''"
proof (induction n rule: toString.induct)
  case (1 n)
  show ?case
  proof (cases "n < 10")
    case True
    then show ?thesis using digit_char_is_digit [of n] by (simp add: toString_small)
  next
    case False
    have "n mod 10 < 10" by simp
    from digit_char_is_digit [OF this] "1" [OF False] False
    show ?thesis by (simp add: toString_large)
  qed
qed

text \<open>Reading back what \<open>toString\<close> wrote gives the number: \<open>toString\<close> is injective.\<close>

lemma digit_value_digit_char: "k < 10 \<Longrightarrow> digit_value (digit_char k) = k"
proof -
  assume "k < 10"
  then have "k = 0 \<or> k = 1 \<or> k = 2 \<or> k = 3 \<or> k = 4 \<or> k = 5 \<or> k = 6 \<or> k = 7 \<or> k = 8 \<or> k = 9"
    by arith
  then show ?thesis
    by (elim disjE) (simp_all add: digit_char_def digit_value_def)
qed

lemma parse_decimal_toString: "parse_decimal (toString n) = n"
proof (induction n rule: toString.induct)
  case (1 n)
  show ?case
  proof (cases "n < 10")
    case True
    then show ?thesis by (simp add: toString_small parse_decimal_def digit_value_digit_char)
  next
    case False
    with "1" have "parse_decimal (toString (n div 10)) = n div 10" by simp
    with False show ?thesis
      by (simp add: toString_large parse_decimal_def digit_value_digit_char)
  qed
qed

lemma toString_inj: "toString m = toString n \<Longrightarrow> m = n"
  by (metis parse_decimal_toString)

section \<open>Filtering keeps order and multiplicity\<close>

text \<open>
  A list that is a subsequence of \<open>xs\<close> and has the elements of \<open>xs\<close> that satisfy \<open>P\<close>,
  each as often as \<open>xs\<close> has it, is \<open>filter P xs\<close>: the two properties say all there is
  to say about a filter.
\<close>

lemma filter_determined:
  assumes sub: "subseq ys xs" and ms: "mset ys = filter_mset P (mset xs)"
  shows "ys = filter P xs"
proof -
  have "\<forall>y\<in>set ys. P y"
  proof
    fix y assume "y \<in> set ys"
    then have "y \<in># filter_mset P (mset xs)" using ms by (metis set_mset_mset)
    then show "P y" by (simp only: set_mset_filter mem_Collect_eq)
  qed
  then have "filter P ys = ys" by (simp add: filter_id_conv)
  with subseq_filter [OF sub, of P] have "subseq ys (filter P xs)" by simp
  moreover have "length ys = length (filter P xs)"
    using arg_cong [OF ms, of size] by (simp add: mset_filter [symmetric] del: mset_filter)
  ultimately show ?thesis by (rule subseq_same_length)
qed

section \<open>Rounding of the product with 10000\<close>

text \<open>
  \<open>below_one\<close> is the comparison of the value with \<open>1\<close>. A product that fits 53 bits is
  exact; otherwise the kept significand, put back at its place, differs from the product
  by at most half of the last kept place. With a draw below one the rounded product
  stays below \<open>10000\<close>, since the largest draw is \<open>1 - 2 ^ -53\<close> and \<open>10000 * 2 ^ -53\<close> is
  more than half of the place \<open>2 ^ -39\<close> that the doubles next to \<open>10000\<close> are apart.
\<close>

lemma below_one_value:
  "below_one x \<longleftrightarrow> real (mant x) * 2 powr real_of_int (expo x) < 1"
proof (cases "mant x = 0")
  case True
  then show ?thesis by (simp add: below_one_def)
next
  case False
  show ?thesis
  proof (cases "expo x < 0")
    case True
    define k where "k = nat (- expo x)"
    from True have e: "expo x = - int k" by (simp add: k_def)
    have p: "2 powr real_of_int (expo x) = 1 / 2 ^ k"
      by (simp add: e powr_minus powr_realpow divide_inverse)
    have "real (mant x) * 2 powr real_of_int (expo x) < 1 \<longleftrightarrow> real (mant x) / 2 ^ k < 1"
      unfolding p by simp
    also have "\<dots> \<longleftrightarrow> real (mant x) < 2 ^ k"
      by (simp add: divide_less_eq)
    also have "\<dots> \<longleftrightarrow> mant x < 2 ^ k"
      by (metis of_nat_less_iff of_nat_numeral of_nat_power)
    finally show ?thesis using True False by (simp add: below_one_def k_def)
  next
    case False
    then have "1 \<le> 2 powr real_of_int (expo x)" by (simp add: ge_one_powr_ge_zero)
    moreover from \<open>mant x \<noteq> 0\<close> have "1 \<le> real (mant x)" by simp
    ultimately have "1 * 1 \<le> real (mant x) * 2 powr real_of_int (expo x)"
      by (intro mult_mono) simp_all
    with False \<open>mant x \<noteq> 0\<close> show ?thesis by (simp add: below_one_def)
  qed
qed

lemma round_nearest_even_exact:
  assumes "M < 2 ^ 53" and "- 1074 \<le> E"
  shows "round_nearest_even M E = \<lparr>mant = M, expo = E\<rparr>"
proof -
  from assms(1) have "bitlen (int M) \<le> 53"
    by (simp add: bitlen_le_iff_power)
  with assms(2) have "nat (max (bitlen (int M) - 53) (- 1074 - E)) = 0" by simp
  then show ?thesis by (simp add: round_nearest_even_def)
qed

lemma round_drop_near:
  fixes M s :: nat
  defines "q \<equiv> M div 2 ^ s" and "r \<equiv> M mod 2 ^ s" and "h \<equiv> 2 ^ (s - 1)"
  assumes s: "0 < s"
  shows "(if h < r \<or> (r = h \<and> odd q) then q + 1 else q) * 2 ^ s \<le> M + h \<and>
         M \<le> (if h < r \<or> (r = h \<and> odd q) then q + 1 else q) * 2 ^ s + h"
proof -
  have M: "M = q * 2 ^ s + r" by (simp only: q_def r_def div_mult_mod_eq)
  from s have "(2::nat) ^ s = 2 ^ (Suc (s - 1))" by simp
  then have hh: "(2::nat) ^ s = h + h" by (simp add: h_def)
  have "r < 2 ^ s" by (simp add: r_def)
  show ?thesis
  proof (cases "h < r \<or> (r = h \<and> odd q)")
    case True
    then have "h \<le> r" by auto
    have "(q + 1) * 2 ^ s = q * 2 ^ s + (h + h)" by (simp add: hh algebra_simps)
    also have "\<dots> \<le> q * 2 ^ s + r + h" using \<open>h \<le> r\<close> by simp
    finally have "(q + 1) * 2 ^ s \<le> M + h" using M by simp
    moreover have "M \<le> (q + 1) * 2 ^ s + h" using M \<open>r < 2 ^ s\<close> by simp
    moreover from True have "(if h < r \<or> (r = h \<and> odd q) then q + 1 else q) = q + 1"
      by (simp only: if_True)
    ultimately show ?thesis by simp
  next
    case False
    then have "r \<le> h" by auto
    from False have "(if h < r \<or> (r = h \<and> odd q) then q + 1 else q) = q" by (simp only: if_False)
    then show ?thesis using M \<open>r \<le> h\<close> by simp
  qed
qed

lemma round_nearest_even_scaled:
  assumes E: "E = - int k" and lo: "- 1074 \<le> E" and M: "M < 10000 * 2 ^ 53"
  shows "- int k \<le> expo (round_nearest_even M E) \<and>
         mant (round_nearest_even M E) * 2 ^ nat (expo (round_nearest_even M E) + int k) \<le> M + 8192"
proof -
  define s where "s = nat (bitlen (int M) - 53)"
  from lo have s_eq: "nat (max (bitlen (int M) - 53) (- 1074 - E)) = s"
    by (simp add: s_def max_def)
  show ?thesis
  proof (cases "s = 0")
    case True
    then show ?thesis using E s_eq by (simp add: round_nearest_even_def)
  next
    case False
    then have s: "0 < s" by simp
    then have bl: "bitlen (int M) = int s + 53" by (simp add: s_def)
    then have "0 < int M" using bitlen_eq_zero_iff [of "int M"] by (cases "0 < int M") auto
    from bitlen_bounds [OF this] bl have "2 ^ nat (int s + 52) \<le> M" by (simp add: add.commute)
    then have "(2::nat) ^ (s + 52) \<le> M" by (simp add: nat_add_distrib)
    also have "M < 2 ^ 67" using M by simp
    finally have "(2::nat) ^ (s + 52) < 2 ^ 67" .
    then have "s + 52 < 67" by (simp only: power_strict_increasing_iff one_less_numeral_iff semiring_norm)
    then have "s - 1 \<le> 13" by simp
    then have "(2::nat) ^ (s - 1) \<le> 2 ^ 13" by (rule power_increasing) simp
    then have h: "(2::nat) ^ (s - 1) \<le> 8192" by simp
    define q' where "q' = (if 2 ^ (s - 1) < M mod 2 ^ s \<or> (M mod 2 ^ s = 2 ^ (s - 1) \<and> odd (M div 2 ^ s))
                           then M div 2 ^ s + 1 else M div 2 ^ s)"
    have q': "q' * 2 ^ s \<le> M + 8192"
      using round_drop_near [OF s, of M] h unfolding q'_def by simp
    have r: "round_nearest_even M E =
        (if q' = 2 ^ 53 then \<lparr>mant = 2 ^ 52, expo = E + int s + 1\<rparr> else \<lparr>mant = q', expo = E + int s\<rparr>)"
      using False s_eq by (simp add: round_nearest_even_def Let_def q'_def)
    show ?thesis
    proof (cases "q' = 2 ^ 53")
      case True
      have "(2::nat) ^ 52 * 2 ^ (Suc s) = 2 ^ 53 * 2 ^ s" by simp
      then show ?thesis using r True q' E by (simp add: nat_add_distrib)
    next
      case False
      then show ?thesis using r q' E by simp
    qed
  qed
qed

lemma Math_floor_scaled:
  assumes "- int k \<le> expo x"
  shows "Math_floor x = (mant x * 2 ^ nat (expo x + int k)) div 2 ^ k"
proof (cases "0 \<le> expo x")
  case True
  then have "nat (expo x + int k) = nat (expo x) + k" by (simp add: nat_add_distrib)
  with True show ?thesis by (simp add: Math_floor_def power_add)
next
  case False
  define j where "j = nat (- expo x)"
  from False assms have j: "expo x = - int j" "j \<le> k" by (simp_all add: j_def)
  then have n: "nat (expo x + int k) = k - j" by simp
  have "(mant x * 2 ^ (k - j)) div 2 ^ k = (mant x * 2 ^ (k - j)) div (2 ^ (k - j) * 2 ^ j)"
    using j by (simp add: power_add [symmetric])
  also have "\<dots> = mant x div 2 ^ j"
    by (simp add: div_mult2_eq [symmetric] del: div_mult_self1_is_m div_mult_self_is_m) 
  finally show ?thesis using False n j by (simp add: Math_floor_def)
qed

lemma floor_times_ten_thousand:
  assumes "Math_random_result x"
  shows "Math_floor (double_mul x ten_thousand) \<le> 9999"
proof -
  from assms have d: "mant x < 2 ^ 53" "- 1074 \<le> expo x" and b: "below_one x"
    by (simp_all add: Math_random_result_def is_double_def)
  have dm: "double_mul x ten_thousand = round_nearest_even (mant x * 10000) (expo x)"
    by (simp add: double_mul_def ten_thousand_def)
  show ?thesis
  proof (cases "mant x = 0")
    case True
    then show ?thesis using d
      by (simp add: dm round_nearest_even_def Math_floor_def max_def)
  next
    case False
    with b have e: "expo x < 0" and m: "mant x < 2 ^ nat (- expo x)"
      by (simp_all add: below_one_def)
    define k where "k = nat (- expo x)"
    from e have E: "expo x = - int k" by (simp add: k_def)
    let ?y = "round_nearest_even (mant x * 10000) (expo x)"
    from d have "mant x * 10000 < 10000 * 2 ^ 53" by simp
    from round_nearest_even_scaled [OF E d(2) this]
    have ex: "- int k \<le> expo ?y"
      and v: "mant ?y * 2 ^ nat (expo ?y + int k) \<le> mant x * 10000 + 8192" by simp_all
    from m have "mant x + 1 \<le> 2 ^ k" by (simp add: k_def)
    then have "(mant x + 1) * 10000 \<le> 2 ^ k * 10000" by (rule mult_le_mono1)
    with v have "mant ?y * 2 ^ nat (expo ?y + int k) < 10000 * 2 ^ k" by simp
    then have "(mant ?y * 2 ^ nat (expo ?y + int k)) div 2 ^ k < 10000"
      by (simp add: less_mult_imp_div_less)
    then show ?thesis using Math_floor_scaled [OF ex] dm by simp
  qed
qed

lemma double_mul_is_double:
  assumes "Math_random_result x"
  shows "is_double (double_mul x ten_thousand)"
proof -
  from assms have d: "mant x < 2 ^ 53" "- 1074 \<le> expo x" "expo x \<le> 971" and b: "below_one x"
    by (simp_all add: Math_random_result_def is_double_def)
  define M where "M = mant x * 10000"
  define s where "s = nat (bitlen (int M) - 53)"
  have dm: "double_mul x ten_thousand = round_nearest_even M (expo x)"
    by (simp add: double_mul_def ten_thousand_def M_def)
  from d have s_eq: "nat (max (bitlen (int M) - 53) (- 1074 - expo x)) = s"
    by (simp add: s_def max_def)
  show ?thesis
  proof (cases "s = 0")
    case True
    then have "bitlen (int M) \<le> 53" by (simp add: s_def)
    then have "M < 2 ^ 53" by (simp add: bitlen_le_iff_power)
    with True d s_eq show ?thesis by (simp add: dm round_nearest_even_def is_double_def)
  next
    case False
    then have bl: "bitlen (int M) = int s + 53" by (simp add: s_def)
    then have pos: "0 < int M" using bitlen_eq_zero_iff [of "int M"] by (cases "0 < int M") auto
    then have "mant x \<noteq> 0" by (simp add: M_def)
    with b have e: "expo x < 0" by (simp add: below_one_def)
    from bitlen_bounds [OF pos] bl have lo: "2 ^ nat (int s + 52) \<le> M" and up: "M < 2 ^ nat (int s + 53)"
      by (simp_all add: add.commute)
    from lo have "(2::nat) ^ (s + 52) \<le> M" by (simp add: nat_add_distrib)
    also have "M < 2 ^ 67" using d by (simp add: M_def)
    finally have "(2::nat) ^ (s + 52) < 2 ^ 67" .
    then have "s + 52 < 67" by (simp only: power_strict_increasing_iff one_less_numeral_iff semiring_norm)
    then have s14: "s \<le> 14" by simp
    from up have "M < 2 ^ s * 2 ^ 53" by (simp add: nat_add_distrib power_add)
    then have q: "M div 2 ^ s < 2 ^ 53" by (simp add: less_mult_imp_div_less mult.commute)
    define q' where "q' = (if 2 ^ (s - 1) < M mod 2 ^ s \<or> (M mod 2 ^ s = 2 ^ (s - 1) \<and> odd (M div 2 ^ s))
                           then M div 2 ^ s + 1 else M div 2 ^ s)"
    from q have q': "q' \<le> 2 ^ 53" by (simp add: q'_def)
    have r: "round_nearest_even M (expo x) =
        (if q' = 2 ^ 53 then \<lparr>mant = 2 ^ 52, expo = expo x + int s + 1\<rparr>
         else \<lparr>mant = q', expo = expo x + int s\<rparr>)"
      using False s_eq by (simp add: round_nearest_even_def Let_def q'_def)
    show ?thesis
    proof (cases "q' = 2 ^ 53")
      case True
      with r d e s14 show ?thesis by (simp add: dm is_double_def)
    next
      case False
      with q' have "q' < 2 ^ 53" by simp
      with False r d e s14 show ?thesis by (simp add: dm is_double_def)
    qed
  qed
qed

text \<open>
  Two draws: \<open>2 ^ -13\<close>, whose product \<open>1.220703125\<close> is exact, and the largest double
  below one, \<open>1 - 2 ^ -53\<close>, whose product rounds to \<open>10000 - 2 ^ -39\<close>.
\<close>

lemma draw_one: "Math_floor (double_mul \<lparr>mant = 1, expo = - 13\<rparr> ten_thousand) = 1"
  by (simp add: double_mul_def ten_thousand_def round_nearest_even_exact Math_floor_def)

lemma largest_draw_rounded: "double_mul \<lparr>mant = 2 ^ 53 - 1, expo = - 53\<rparr> ten_thousand = \<lparr>mant = 5497558138879999, expo = - 39\<rparr>"
  by (simp add: double_mul_def ten_thousand_def round_nearest_even_def Math_floor_def compute_bitlen Let_def)

lemma largest_draw: "Math_floor (double_mul \<lparr>mant = 2 ^ 53 - 1, expo = - 53\<rparr> ten_thousand) = 9999"
  by (simp add: double_mul_def ten_thousand_def round_nearest_even_def Math_floor_def compute_bitlen Let_def)

section \<open>Facts about the mutation handler\<close>

lemma id_game_spread_edits: "id_game (spread_edits g e) = id_game g"
  by (simp add: spread_edits_def)

lemma spread_edits_twice: "spread_edits (spread_edits g e) e = spread_edits g e"
  by (simp add: spread_edits_def split: option.splits)

lemma title_spread_edits:
  "title (spread_edits g e) = (case title_ed e of None \<Rightarrow> title g | Some t \<Rightarrow> t)"
  by (simp add: spread_edits_def)

lemma platform_spread_edits:
  "platform (spread_edits g e) = (case platform_ed e of None \<Rightarrow> platform g | Some p \<Rightarrow> p)"
  by (simp add: spread_edits_def)

lemma updateGame_alt:
  "Mutation_updateGame i e d =
     (List.find (\<lambda>g. id_game g = i) (map (edit_matching i e) (games d)),
      d\<lparr>games := map (edit_matching i e) (games d)\<rparr>)"
  by (simp add: Mutation_updateGame_def Let_def edit_matching_def [abs_def])

lemma id_game_edit_matching: "id_game (edit_matching i e g) = id_game g"
  by (simp add: edit_matching_def id_game_spread_edits)

lemma edit_matching_twice: "edit_matching i e (edit_matching i e g) = edit_matching i e g"
  by (simp add: edit_matching_def id_game_spread_edits spread_edits_twice)

lemma find_id_map_edit:
  "List.find (\<lambda>g. id_game g = i) (map (edit_matching j e) gs) =
     map_option (edit_matching j e) (List.find (\<lambda>g. id_game g = i) gs)"
  by (induction gs) (simp_all add: id_game_edit_matching)

lemma edit_matching_other: "id_game g \<noteq> i \<Longrightarrow> edit_matching i e g = g"
  by (simp add: edit_matching_def)

lemma map_edit_matching_absent:
  "\<forall>g\<in>set gs. id_game g \<noteq> i \<Longrightarrow> map (edit_matching i e) gs = gs"
  by (rule map_idI) (simp add: edit_matching_other)

lemma map_title_edit_matching:
  "title_ed e = None \<Longrightarrow> map title (map (edit_matching i e) gs) = map title gs"
  by (simp add: edit_matching_def title_spread_edits)

lemma map_platform_edit_matching:
  "platform_ed e = None \<Longrightarrow> map platform (map (edit_matching i e) gs) = map platform gs"
  by (simp add: edit_matching_def platform_spread_edits)

lemma deleteGame_alt:
  "Mutation_deleteGame i d =
     (filter (\<lambda>g. id_game g \<noteq> i) (games d), d\<lparr>games := filter (\<lambda>g. id_game g \<noteq> i) (games d)\<rparr>)"
  by (simp add: Mutation_deleteGame_def Let_def)

lemma filter_single_split:
  assumes "length (filter P xs) = 1"
  shows "\<exists>pre x post. xs = pre @ x # post \<and> P x \<and> filter (\<lambda>y. \<not> P y) xs = pre @ post"
proof -
  from assms obtain x where "filter P xs = [x]"
    by (cases "filter P xs") simp_all
  then obtain pre post where xs: "xs = pre @ x # post" and pre: "\<forall>u\<in>set pre. \<not> P u"
    and x: "P x" and post: "filter P post = []"
    by (auto simp: filter_eq_Cons_iff)
  from post have "\<forall>u\<in>set post. \<not> P u" by (simp add: filter_empty_conv)
  with pre x have "filter (\<lambda>y. \<not> P y) xs = pre @ post"
    by (simp add: xs filter_id_conv)
  with xs x show ?thesis by blast
qed

lemma find_append_fresh:
  "\<forall>x\<in>set xs. \<not> P x \<Longrightarrow> List.find P (xs @ ys) = List.find P ys"
  by (induction xs) simp_all

lemma id_of_addGame:
  "id_game (fst (Mutation_addGame random args_game d)) =
     toString (Math_floor (double_mul random ten_thousand))"
  by (simp add: Mutation_addGame_def Let_def)

lemma generated_ids_subset: "generated_ids \<subseteq> toString ` {..9999}"
  unfolding generated_ids_def id_of_addGame
  using floor_times_ten_thousand by blast

lemma generated_ids_card: "finite generated_ids \<and> card generated_ids \<le> 10000"
proof -
  have f: "finite (toString ` {..9999})" by simp
  have "card (toString ` {..9999}) \<le> card {..(9999::nat)}" by (rule card_image_le) simp
  then have "card (toString ` {..9999}) \<le> 10000" by simp
  with card_mono [OF f generated_ids_subset] finite_subset [OF generated_ids_subset f]
  show ?thesis by simp
qed

section \<open>The claims\<close>

text \<open>
  Claim C1. For every game \<open>g\<close> and every store, \<open>reviewsForGame\<close> (the resolver
  \<^verbatim>\<open>Game.reviews\<close>) returns exactly the reviews whose \<open>game_id\<close> is the id of \<open>g\<close>: the
  result is a subsequence of the reviews collection, so it is in insertion order, and it
  has every matching review as often as the collection has it. When no review references
  \<open>g\<close> the result is the empty list. On the seed data a game with id \<open>1\<close> gets the
  reviews \<open>101\<close> and \<open>104\<close>, in this order.
\<close>

theorem reviewsForGame_exact:
  "subseq (Game_reviews g d) (reviews d) \<and>
   mset (Game_reviews g d) = filter_mset (\<lambda>r. game_id r = id_game g) (mset (reviews d)) \<and>
   ((\<forall>r\<in>set (reviews d). game_id r \<noteq> id_game g) \<longrightarrow> Game_reviews g d = []) \<and>
   (id_game g = ''1'' \<longrightarrow> map id_review (Game_reviews g db_seed) = [''101'', ''104''])"
  by (simp add: Game_reviews_def db_seed_def reviews_seed_def)

theorem reviewsForGame_exact_witness:
  "Game_reviews \<lparr>id_game = ''7'', title = ''Unreviewed'', platform = []\<rparr> db_seed = [] \<and>
   map id_review (Game_reviews (hd games_seed) db_seed) = [''101'', ''104'']"
  using reviewsForGame_exact [of "\<lparr>id_game = ''7'', title = ''Unreviewed'', platform = []\<rparr>" db_seed]
    reviewsForGame_exact [of "hd games_seed" db_seed]
  by (simp add: db_seed_def reviews_seed_def games_seed_def)

text \<open>
  Claim C2, as the specification states it: for every input and every store, \<open>addGame\<close>
  returns a game with a non-empty id that no game of the collection has, with the title
  and platform of the input; the game is appended, \<open>findGameById\<close> with its id returns
  it, and \<open>listGames\<close> includes it.

  The id is drawn at random and is not compared with the ids in use. On the seed data the
  draw \<open>2 ^ -13\<close> gives the id \<open>1\<close>, which the first seed game has, and \<open>findGameById\<close>
  then returns that first game, not the new one.
\<close>

theorem addGame_fresh_id_counterexample:
  "Math_random_result \<lparr>mant = 1, expo = - 13\<rparr> \<and>
   id_game (fst (Mutation_addGame \<lparr>mant = 1, expo = - 13\<rparr>
      \<lparr>title_in = ''Elden Ring'', platform_in = [''PC'', ''PlayStation'', ''Xbox'']\<rparr> db_seed))
     \<in> id_game ` set (games db_seed) \<and>
   Query_game
     (id_game (fst (Mutation_addGame \<lparr>mant = 1, expo = - 13\<rparr>
        \<lparr>title_in = ''Elden Ring'', platform_in = [''PC'', ''PlayStation'', ''Xbox'']\<rparr> db_seed)))
     (snd (Mutation_addGame \<lparr>mant = 1, expo = - 13\<rparr>
        \<lparr>title_in = ''Elden Ring'', platform_in = [''PC'', ''PlayStation'', ''Xbox'']\<rparr> db_seed))
     \<noteq> Some (fst (Mutation_addGame \<lparr>mant = 1, expo = - 13\<rparr>
        \<lparr>title_in = ''Elden Ring'', platform_in = [''PC'', ''PlayStation'', ''Xbox'']\<rparr> db_seed))"
proof -
  have n: "toString (Math_floor (double_mul \<lparr>mant = 1, expo = - 13\<rparr> ten_thousand)) = ''1''"
    unfolding draw_one by (simp add: toString_small digit_char_def)
  have r: "Math_random_result \<lparr>mant = 1, expo = - 13\<rparr>"
    by (simp add: Math_random_result_def is_double_def below_one_def)
  show ?thesis
    unfolding Mutation_addGame_def Let_def n
    using r by (simp add: Query_game_def db_seed_def games_seed_def)
qed

text \<open>
  Claim C2, amended: the id of the returned game is a non-empty string, its title and
  platform are those of the input, the game is appended at the end of the collection and
  \<open>listGames\<close> includes it; \<open>findGameById\<close> with its id returns the game whenever no
  game of the collection before the call had that id.
\<close>

theorem addGame_appends:
  assumes run: "Mutation_addGame random args_game d = (g, d')"
  shows "id_game g \<noteq> [] \<and> title g = title_in args_game \<and> platform g = platform_in args_game \<and>
    games d' = games d @ [g] \<and> g \<in> set (Query_games d') \<and>
    (id_game g \<notin> id_game ` set (games d) \<longrightarrow> Query_game (id_game g) d' = Some g)"
proof -
  from run have g: "g = \<lparr>id_game = toString (Math_floor (double_mul random ten_thousand)),
        title = title_in args_game, platform = platform_in args_game\<rparr>"
    and d': "d' = d\<lparr>games := games d @ [g]\<rparr>"
    by (auto simp: Mutation_addGame_def Let_def)
  have fresh: "id_game g \<notin> id_game ` set (games d) \<longrightarrow> Query_game (id_game g) d' = Some g"
  proof
    assume "id_game g \<notin> id_game ` set (games d)"
    then have "\<forall>x\<in>set (games d). \<not> id_game x = id_game g" by (metis imageI)
    then show "Query_game (id_game g) d' = Some g"
      by (simp add: Query_game_def d' find_append_fresh)
  qed
  from g have "id_game g \<noteq> []" by (simp add: toString_not_Nil)
  moreover from g have "title g = title_in args_game" "platform g = platform_in args_game"
    by simp_all
  moreover from d' have "games d' = games d @ [g]" "g \<in> set (Query_games d')"
    by (simp_all add: Query_games_def)
  ultimately show ?thesis using fresh by (intro conjI)
qed

theorem addGame_appends_witness:
  "Mutation_addGame \<lparr>mant = 2 ^ 53 - 1, expo = - 53\<rparr>
      \<lparr>title_in = ''Elden Ring'', platform_in = [''PC'', ''PlayStation'', ''Xbox'']\<rparr> db_seed =
     (\<lparr>id_game = ''9999'', title = ''Elden Ring'', platform = [''PC'', ''PlayStation'', ''Xbox'']\<rparr>,
      db_seed\<lparr>games := games_seed @
        [\<lparr>id_game = ''9999'', title = ''Elden Ring'', platform = [''PC'', ''PlayStation'', ''Xbox'']\<rparr>]\<rparr>) \<and>
   ''9999'' \<notin> id_game ` set (games db_seed) \<and>
   Query_game ''9999'' (db_seed\<lparr>games := games_seed @
        [\<lparr>id_game = ''9999'', title = ''Elden Ring'', platform = [''PC'', ''PlayStation'', ''Xbox'']\<rparr>]\<rparr>)
     = Some \<lparr>id_game = ''9999'', title = ''Elden Ring'', platform = [''PC'', ''PlayStation'', ''Xbox'']\<rparr>"
proof -
  let ?r = "\<lparr>mant = 2 ^ 53 - 1, expo = - 53\<rparr>"
  let ?a = "\<lparr>title_in = ''Elden Ring'', platform_in = [''PC'', ''PlayStation'', ''Xbox'']\<rparr>"
  let ?g = "\<lparr>id_game = ''9999'', title = ''Elden Ring'', platform = [''PC'', ''PlayStation'', ''Xbox'']\<rparr>"
  have n: "toString (Math_floor (double_mul ?r ten_thousand)) = ''9999''"
    unfolding largest_draw by (simp add: toString_small toString_large digit_char_def)
  have run: "Mutation_addGame ?r ?a db_seed = (?g, db_seed\<lparr>games := games_seed @ [?g]\<rparr>)"
    unfolding Mutation_addGame_def Let_def n by (simp add: db_seed_def)
  have f: "''9999'' \<notin> id_game ` set (games db_seed)"
    by (simp add: db_seed_def games_seed_def)
  from addGame_appends [OF run] f run show ?thesis by simp
qed

text \<open>
  Claim C3. For every id that a game of the collection has, and every edits object,
  \<open>updateGame\<close> keeps the length of the collection and the id at every position, leaves
  the games with another id as they are, and gives a game with the id the title and the
  platform of the edits where the edits have one and its own where they have none. It
  returns the updated record at the first position that has the id, which is what
  \<open>findGameById\<close> finds after the call. On the seed data,
  \<^verbatim>\<open>updateGame("1", {title: "Remastered"})\<close> returns the game \<open>1\<close> with the title
  \<open>Remastered\<close> and the platform \<open>PC\<close>, \<open>Switch\<close>.
\<close>

theorem updateGame_merges_fields:
  assumes present: "i \<in> id_game ` set (games d)"
    and run: "Mutation_updateGame i e d = (ret, d')"
  shows "length (games d') = length (games d) \<and>
    (\<forall>k<length (games d).
        id_game (games d' ! k) = id_game (games d ! k) \<and>
        (id_game (games d ! k) \<noteq> i \<longrightarrow> games d' ! k = games d ! k) \<and>
        (id_game (games d ! k) = i \<longrightarrow>
           title (games d' ! k) =
             (case title_ed e of None \<Rightarrow> title (games d ! k) | Some t \<Rightarrow> t) \<and>
           platform (games d' ! k) =
             (case platform_ed e of None \<Rightarrow> platform (games d ! k) | Some p \<Rightarrow> p))) \<and>
    (\<exists>k<length (games d). id_game (games d ! k) = i \<and>
        (\<forall>j<k. id_game (games d ! j) \<noteq> i) \<and> ret = Some (games d' ! k)) \<and>
    ret = Query_game i d' \<and>
    fst (Mutation_updateGame ''1'' \<lparr>title_ed = Some ''Remastered'', platform_ed = None\<rparr> db_seed) =
      Some \<lparr>id_game = ''1'', title = ''Remastered'', platform = [''PC'', ''Switch'']\<rparr>"
proof -
  from run have ret: "ret = List.find (\<lambda>g. id_game g = i) (map (edit_matching i e) (games d))"
    and d': "games d' = map (edit_matching i e) (games d)"
    by (auto simp: updateGame_alt)
  have len: "length (games d') = length (games d)" by (simp add: d')
  have each: "\<forall>k<length (games d).
        id_game (games d' ! k) = id_game (games d ! k) \<and>
        (id_game (games d ! k) \<noteq> i \<longrightarrow> games d' ! k = games d ! k) \<and>
        (id_game (games d ! k) = i \<longrightarrow>
           title (games d' ! k) =
             (case title_ed e of None \<Rightarrow> title (games d ! k) | Some t \<Rightarrow> t) \<and>
           platform (games d' ! k) =
             (case platform_ed e of None \<Rightarrow> platform (games d ! k) | Some p \<Rightarrow> p))"
    by (simp add: d' id_game_edit_matching edit_matching_other)
       (simp add: edit_matching_def title_spread_edits platform_spread_edits)
  from present obtain g where "g \<in> set (games d)" "id_game g = i" by auto
  then have "List.find (\<lambda>g. id_game g = i) (games d) \<noteq> None"
    by (auto simp: find_None_iff)
  then obtain g0 where g0: "List.find (\<lambda>g. id_game g = i) (games d) = Some g0" by auto
  then obtain k where k: "k < length (games d)" "id_game (games d ! k) = i"
      "g0 = games d ! k" "\<forall>j<k. id_game (games d ! j) \<noteq> i"
    by (auto simp: find_Some_iff)
  have "ret = Some (edit_matching i e g0)" by (simp add: ret find_id_map_edit g0)
  also have "edit_matching i e g0 = games d' ! k" using k by (simp add: d')
  finally have first: "\<exists>k<length (games d). id_game (games d ! k) = i \<and>
        (\<forall>j<k. id_game (games d ! j) \<noteq> i) \<and> ret = Some (games d' ! k)"
    using k by blast
  have q: "ret = Query_game i d'" by (simp add: ret d' Query_game_def)
  have seed: "fst (Mutation_updateGame ''1'' \<lparr>title_ed = Some ''Remastered'', platform_ed = None\<rparr> db_seed) =
      Some \<lparr>id_game = ''1'', title = ''Remastered'', platform = [''PC'', ''Switch'']\<rparr>"
    by (simp add: Mutation_updateGame_def db_seed_def games_seed_def spread_edits_def)
  from len each first q seed show ?thesis by (intro conjI)
qed

theorem updateGame_merges_fields_witness:
  "''1'' \<in> id_game ` set (games db_seed) \<and>
   Mutation_updateGame ''1'' \<lparr>title_ed = Some ''Remastered'', platform_ed = None\<rparr> db_seed =
     (Some \<lparr>id_game = ''1'', title = ''Remastered'', platform = [''PC'', ''Switch'']\<rparr>,
      db_seed\<lparr>games := \<lparr>id_game = ''1'', title = ''Remastered'', platform = [''PC'', ''Switch'']\<rparr>
                 # tl games_seed\<rparr>) \<and>
   length (\<lparr>id_game = ''1'', title = ''Remastered'', platform = [''PC'', ''Switch'']\<rparr> # tl games_seed)
     = length (games db_seed)"
proof -
  let ?e = "\<lparr>title_ed = Some ''Remastered'', platform_ed = None\<rparr>"
  let ?g = "\<lparr>id_game = ''1'', title = ''Remastered'', platform = [''PC'', ''Switch'']\<rparr>"
  have p: "''1'' \<in> id_game ` set (games db_seed)"
    by (simp add: db_seed_def games_seed_def)
  have r: "Mutation_updateGame ''1'' ?e db_seed = (Some ?g, db_seed\<lparr>games := ?g # tl games_seed\<rparr>)"
    by (simp add: Mutation_updateGame_def db_seed_def games_seed_def spread_edits_def)
  from updateGame_merges_fields [OF p r] p r show ?thesis by simp
qed

text \<open>
  Claim C4, as the specification states it: for every id that the collection has,
  \<open>deleteGame\<close> removes exactly one record and returns a collection one shorter.

  \<open>deleteGame\<close> filters on the id, so it removes every game that has it. The store that
  \<open>addGame\<close> leaves on the seed data with the draw \<open>2 ^ -13\<close> has two games with the id
  \<open>1\<close> among its four; \<open>deleteGame\<close> of \<open>1\<close> returns two games, not three.
\<close>

theorem deleteGame_one_record_counterexample:
  "snd (Mutation_addGame \<lparr>mant = 1, expo = - 13\<rparr>
      \<lparr>title_in = ''Elden Ring'', platform_in = [''PC'', ''PlayStation'', ''Xbox'']\<rparr> db_seed) =
     db_seed\<lparr>games := games_seed @
        [\<lparr>id_game = ''1'', title = ''Elden Ring'', platform = [''PC'', ''PlayStation'', ''Xbox'']\<rparr>]\<rparr> \<and>
   ''1'' \<in> id_game ` set (games (db_seed\<lparr>games := games_seed @
        [\<lparr>id_game = ''1'', title = ''Elden Ring'', platform = [''PC'', ''PlayStation'', ''Xbox'']\<rparr>]\<rparr>)) \<and>
   length (games (db_seed\<lparr>games := games_seed @
        [\<lparr>id_game = ''1'', title = ''Elden Ring'', platform = [''PC'', ''PlayStation'', ''Xbox'']\<rparr>]\<rparr>)) = 4 \<and>
   length (fst (Mutation_deleteGame ''1'' (db_seed\<lparr>games := games_seed @
        [\<lparr>id_game = ''1'', title = ''Elden Ring'', platform = [''PC'', ''PlayStation'', ''Xbox'']\<rparr>]\<rparr>))) = 2"
proof -
  have n: "toString (Math_floor (double_mul \<lparr>mant = 1, expo = - 13\<rparr> ten_thousand)) = ''1''"
    unfolding draw_one by (simp add: toString_small digit_char_def)
  show ?thesis
    unfolding Mutation_addGame_def Let_def n
    by (simp add: Mutation_deleteGame_def db_seed_def games_seed_def)
qed

text \<open>
  Claim C4, amended: \<open>deleteGame\<close> returns the games collection that it leaves in the
  store (not a deleted record); the collection is shorter by the number of games that had
  the id; a second call with the same id returns the same collection and leaves the same
  store. For an id that exactly one game of the collection has, exactly that record is
  removed, the others stay in order, and the length is the original length less one.
\<close>

theorem deleteGame_single_match:
  assumes run: "Mutation_deleteGame i d = (ret, d')"
  shows "ret = games d' \<and>
    length ret = length (games d) - length (filter (\<lambda>g. id_game g = i) (games d)) \<and>
    (length (filter (\<lambda>g. id_game g = i) (games d)) = 1 \<longrightarrow>
       (\<exists>pre g post. games d = pre @ g # post \<and> id_game g = i \<and> ret = pre @ post) \<and>
       length ret = length (games d) - 1) \<and>
    Mutation_deleteGame i d' = (ret, d')"
proof -
  from run have ret: "ret = filter (\<lambda>g. id_game g \<noteq> i) (games d)"
    and d': "d' = d\<lparr>games := ret\<rparr>"
    by (auto simp: deleteGame_alt)
  have len: "length ret = length (games d) - length (filter (\<lambda>g. id_game g = i) (games d))"
    using sum_length_filter_compl [of "\<lambda>g. id_game g = i" "games d"] by (simp add: ret)
  have one: "length (filter (\<lambda>g. id_game g = i) (games d)) = 1 \<longrightarrow>
       (\<exists>pre g post. games d = pre @ g # post \<and> id_game g = i \<and> ret = pre @ post) \<and>
       length ret = length (games d) - 1"
    using filter_single_split [of "\<lambda>g. id_game g = i" "games d"] len by (simp add: ret)
  have again: "Mutation_deleteGame i d' = (ret, d')"
    by (simp add: deleteGame_alt d' ret)
  from d' have "ret = games d'" by simp
  with len one again show ?thesis by (intro conjI)
qed

theorem deleteGame_single_match_witness:
  "Mutation_deleteGame ''2'' db_seed =
     ([games_seed ! 0, games_seed ! 2], db_seed\<lparr>games := [games_seed ! 0, games_seed ! 2]\<rparr>) \<and>
   length (filter (\<lambda>g. id_game g = ''2'') (games db_seed)) = 1 \<and>
   length [games_seed ! 0, games_seed ! 2] = length (games db_seed) - 1 \<and>
   Mutation_deleteGame ''2'' (db_seed\<lparr>games := [games_seed ! 0, games_seed ! 2]\<rparr>) =
     ([games_seed ! 0, games_seed ! 2], db_seed\<lparr>games := [games_seed ! 0, games_seed ! 2]\<rparr>)"
proof -
  have run: "Mutation_deleteGame ''2'' db_seed =
     ([games_seed ! 0, games_seed ! 2], db_seed\<lparr>games := [games_seed ! 0, games_seed ! 2]\<rparr>)"
    by (simp add: Mutation_deleteGame_def db_seed_def games_seed_def)
  have one: "length (filter (\<lambda>g. id_game g = ''2'') (games db_seed)) = 1"
    by (simp add: db_seed_def games_seed_def)
  from deleteGame_single_match [OF run] one run show ?thesis by simp
qed

text \<open>
  Claim C5. For every id and every store, \<open>findGameById\<close>, \<open>findAuthorById\<close> and
  \<open>findReviewById\<close> (the resolvers \<^verbatim>\<open>Query.game\<close>, \<^verbatim>\<open>Query.author\<close>, \<^verbatim>\<open>Query.review\<close>)
  return absent exactly when no record of the collection has the id, and otherwise the
  record at the least position that has it: with duplicate ids the first in insertion
  order wins. Absent is the value \<open>None\<close>, not an error.
\<close>

theorem find_by_id_first_match:
  "(Query_game i d = None \<longleftrightarrow> (\<forall>g\<in>set (games d). id_game g \<noteq> i)) \<and>
   (Query_game i d = Some g \<longleftrightarrow>
      (\<exists>k<length (games d). games d ! k = g \<and> id_game g = i \<and>
         (\<forall>j<k. id_game (games d ! j) \<noteq> i))) \<and>
   (Query_author i d = None \<longleftrightarrow> (\<forall>a\<in>set (authors d). id_author a \<noteq> i)) \<and>
   (Query_author i d = Some a \<longleftrightarrow>
      (\<exists>k<length (authors d). authors d ! k = a \<and> id_author a = i \<and>
         (\<forall>j<k. id_author (authors d ! j) \<noteq> i))) \<and>
   (Query_review i d = None \<longleftrightarrow> (\<forall>r\<in>set (reviews d). id_review r \<noteq> i)) \<and>
   (Query_review i d = Some r \<longleftrightarrow>
      (\<exists>k<length (reviews d). reviews d ! k = r \<and> id_review r = i \<and>
         (\<forall>j<k. id_review (reviews d ! j) \<noteq> i)))"
proof -
  have n: "\<And>P xs. List.find P xs = None \<longleftrightarrow> (\<forall>x\<in>set xs. \<not> P x)"
    by (auto simp: find_None_iff)
  have s: "\<And>f (xs :: 'a list) x. List.find (\<lambda>y. f y = i) xs = Some x \<longleftrightarrow>
      (\<exists>k<length xs. xs ! k = x \<and> f x = i \<and> (\<forall>j<k. f (xs ! j) \<noteq> i))" for i :: string
    by (auto simp: find_Some_iff)
  show ?thesis
    unfolding Query_game_def Query_author_def Query_review_def
    by (simp only: n s simp_thms)
qed

theorem find_by_id_first_match_witness:
  "Query_game ''4'' db_seed = None \<and>
   Query_game ''1'' (db_seed\<lparr>games := games_seed @ [\<lparr>id_game = ''1'', title = ''Twin'', platform = []\<rparr>]\<rparr>)
     = Some (games_seed ! 0) \<and>
   Query_author ''204'' db_seed = None \<and> Query_author ''202'' db_seed = Some (authors_seed ! 1) \<and>
   Query_review ''100'' db_seed = None \<and> Query_review ''104'' db_seed = Some (reviews_seed ! 3)"
proof -
  let ?d = "db_seed\<lparr>games := games_seed @ [\<lparr>id_game = ''1'', title = ''Twin'', platform = []\<rparr>]\<rparr>"
  have g0: "Query_game ''4'' db_seed = None"
    using find_by_id_first_match [of "''4''" db_seed]
    by (simp add: db_seed_def games_seed_def)
  have g1: "Query_game ''1'' ?d = Some (games_seed ! 0)"
  proof -
    have "\<exists>k<length (games ?d). games ?d ! k = games_seed ! 0 \<and>
        id_game (games_seed ! 0) = ''1'' \<and> (\<forall>j<k. id_game (games ?d ! j) \<noteq> ''1'')"
      by (rule exI [of _ 0]) (simp add: games_seed_def)
    then show ?thesis
      using find_by_id_first_match [of "''1''" ?d "games_seed ! 0"] by blast
  qed
  have a0: "Query_author ''204'' db_seed = None"
    using find_by_id_first_match [of "''204''" db_seed]
    by (simp add: db_seed_def authors_seed_def)
  have a1: "Query_author ''202'' db_seed = Some (authors_seed ! 1)"
  proof -
    have "\<exists>k<length (authors db_seed). authors db_seed ! k = authors_seed ! 1 \<and>
        id_author (authors_seed ! 1) = ''202'' \<and>
        (\<forall>j<k. id_author (authors db_seed ! j) \<noteq> ''202'')"
      by (rule exI [of _ 1]) (simp add: db_seed_def authors_seed_def)
    then show ?thesis
      using find_by_id_first_match [of "''202''" db_seed _ "authors_seed ! 1"] by blast
  qed
  have r0: "Query_review ''100'' db_seed = None"
    using find_by_id_first_match [of "''100''" db_seed]
    by (simp add: db_seed_def reviews_seed_def)
  have r1: "Query_review ''104'' db_seed = Some (reviews_seed ! 3)"
  proof -
    have "\<exists>k<length (reviews db_seed). reviews db_seed ! k = reviews_seed ! 3 \<and>
        id_review (reviews_seed ! 3) = ''104'' \<and>
        (\<forall>j<k. id_review (reviews db_seed ! j) \<noteq> ''104'')"
      by (rule exI [of _ 3]) (simp add: db_seed_def reviews_seed_def less_Suc_eq numeral_3_eq_3)
    then show ?thesis
      using find_by_id_first_match [of "''104''" db_seed _ _ "reviews_seed ! 3"] by blast
  qed
  from g0 g1 a0 a1 r0 r1 show ?thesis by simp
qed

text \<open>
  Claim C6. For every id that no game of the collection has, \<open>updateGame\<close> and
  \<open>deleteGame\<close> change nothing: the store after the call is the store before it,
  \<open>updateGame\<close> returns absent and \<open>deleteGame\<close> returns the whole collection as it was.
  Neither has an error result.
\<close>

theorem mutate_missing_is_noop:
  assumes "\<forall>g\<in>set (games d). id_game g \<noteq> i"
  shows "Mutation_updateGame i e d = (None, d) \<and> Mutation_deleteGame i d = (games d, d)"
proof -
  from assms have "map (edit_matching i e) (games d) = games d"
    by (rule map_edit_matching_absent)
  moreover from assms have "List.find (\<lambda>g. id_game g = i) (games d) = None"
    by (simp add: find_None_iff)
  ultimately have u: "Mutation_updateGame i e d = (None, d)"
    by (simp add: updateGame_alt)
  from assms have "filter (\<lambda>g. id_game g \<noteq> i) (games d) = games d"
    by (simp add: filter_id_conv)
  then have "Mutation_deleteGame i d = (games d, d)"
    by (simp add: Mutation_deleteGame_def)
  with u show ?thesis by simp
qed

theorem mutate_missing_is_noop_witness:
  "''99'' \<notin> id_game ` set (games db_seed) \<and>
   Mutation_updateGame ''99'' \<lparr>title_ed = Some ''Ghost'', platform_ed = Some [''PC'']\<rparr> db_seed
     = (None, db_seed) \<and>
   Mutation_deleteGame ''99'' db_seed = (games db_seed, db_seed)"
proof -
  have h: "\<forall>g\<in>set (games db_seed). id_game g \<noteq> ''99''"
    by (simp add: db_seed_def games_seed_def)
  have n: "''99'' \<notin> id_game ` set (games db_seed)"
    by (simp add: db_seed_def games_seed_def)
  from mutate_missing_is_noop [OF h] n show ?thesis by simp
qed

text \<open>
  Claim C7. A review whose \<open>game_id\<close> is the id of no game of the collection resolves
  \<open>gameOfReview\<close> (the resolver \<^verbatim>\<open>Review.game\<close>) to absent; so does every review of a game
  once \<open>deleteGame\<close> has removed the game. \<open>reviewsForGame\<close> returns after a delete what it
  returned before, for every game.
\<close>

theorem dangling_review_resolves_absent:
  "((\<forall>g\<in>set (games d). id_game g \<noteq> game_id r) \<longrightarrow> Review_game r d = None) \<and>
   (game_id r = i \<longrightarrow> Review_game r (snd (Mutation_deleteGame i d)) = None) \<and>
   Game_reviews g (snd (Mutation_deleteGame i d)) = Game_reviews g d"
  by (simp add: Review_game_def Game_reviews_def Mutation_deleteGame_def find_None_iff)

theorem dangling_review_resolves_absent_witness:
  "Review_game \<lparr>id_review = ''105'', rating = 1, content = ''Lost'', author_id = ''201'',
      game_id = ''9''\<rparr> db_seed = None \<and>
   Review_game (reviews_seed ! 0) db_seed = Some (games_seed ! 0) \<and>
   Review_game (reviews_seed ! 0) (snd (Mutation_deleteGame ''1'' db_seed)) = None \<and>
   Game_reviews (games_seed ! 1) (snd (Mutation_deleteGame ''1'' db_seed)) = [reviews_seed ! 1]"
proof -
  let ?r = "\<lparr>id_review = ''105'', rating = 1, content = ''Lost'', author_id = ''201'', game_id = ''9''\<rparr>"
  have a: "Review_game ?r db_seed = None"
    using dangling_review_resolves_absent [of db_seed ?r]
    by (simp add: db_seed_def games_seed_def)
  have b: "Review_game (reviews_seed ! 0) (snd (Mutation_deleteGame ''1'' db_seed)) = None"
    using dangling_review_resolves_absent [of db_seed "reviews_seed ! 0" "''1''"]
    by (simp add: reviews_seed_def)
  have c: "Game_reviews (games_seed ! 1) (snd (Mutation_deleteGame ''1'' db_seed)) = [reviews_seed ! 1]"
    using dangling_review_resolves_absent [of db_seed _ "''1''" "games_seed ! 1"]
    by (simp add: Game_reviews_def db_seed_def games_seed_def reviews_seed_def)
  have d: "Review_game (reviews_seed ! 0) db_seed = Some (games_seed ! 0)"
    by (simp add: Review_game_def db_seed_def games_seed_def reviews_seed_def)
  from a b c d show ?thesis by simp
qed

text \<open>
  Claim C8. \<open>updateGame\<close> is idempotent: a second call with the same id and edits returns
  the record the first call returned and leaves the store the first call left. A field
  that the edits do not have keeps, in every game, the value it had before the first call.
\<close>

theorem updateGame_idempotent:
  "Mutation_updateGame i e (snd (Mutation_updateGame i e d)) = Mutation_updateGame i e d \<and>
   (title_ed e = None \<longrightarrow>
      map title (games (snd (Mutation_updateGame i e d))) = map title (games d)) \<and>
   (platform_ed e = None \<longrightarrow>
      map platform (games (snd (Mutation_updateGame i e d))) = map platform (games d))"
proof -
  have "map (edit_matching i e) (map (edit_matching i e) (games d)) = map (edit_matching i e) (games d)"
    by (simp add: edit_matching_twice comp_def)
  then have "Mutation_updateGame i e (snd (Mutation_updateGame i e d)) = Mutation_updateGame i e d"
    by (simp add: updateGame_alt del: map_map)
  moreover have "title_ed e = None \<longrightarrow>
      map title (games (snd (Mutation_updateGame i e d))) = map title (games d)"
    by (simp add: updateGame_alt map_title_edit_matching del: map_map)
  moreover have "platform_ed e = None \<longrightarrow>
      map platform (games (snd (Mutation_updateGame i e d))) = map platform (games d)"
    by (simp add: updateGame_alt map_platform_edit_matching del: map_map)
  ultimately show ?thesis by (intro conjI)
qed

theorem updateGame_idempotent_witness:
  "map platform (games (snd (Mutation_updateGame ''1'' \<lparr>title_ed = Some ''New'', platform_ed = None\<rparr> db_seed)))
     = [[''PC'', ''Switch''], [''Xbox'', ''PlayStation''], [''PC'']] \<and>
   map title (games (snd (Mutation_updateGame ''3'' \<lparr>title_ed = None, platform_ed = Some [''Mac'']\<rparr> db_seed)))
     = [''Legend of Code'', ''Bug Hunter 3000'', ''Terminal Quest''] \<and>
   fst (Mutation_updateGame ''1'' \<lparr>title_ed = Some ''New'', platform_ed = None\<rparr>
         (snd (Mutation_updateGame ''1'' \<lparr>title_ed = Some ''New'', platform_ed = None\<rparr> db_seed)))
     = Some \<lparr>id_game = ''1'', title = ''New'', platform = [''PC'', ''Switch'']\<rparr>"
proof -
  let ?e = "\<lparr>title_ed = Some ''New'', platform_ed = None\<rparr>"
  let ?f = "\<lparr>title_ed = None, platform_ed = Some [''Mac'']\<rparr>"
  have a: "map platform (games (snd (Mutation_updateGame ''1'' ?e db_seed)))
      = [[''PC'', ''Switch''], [''Xbox'', ''PlayStation''], [''PC'']]"
    using updateGame_idempotent [of "''1''" ?e db_seed] by (simp add: db_seed_def games_seed_def)
  have b: "map title (games (snd (Mutation_updateGame ''3'' ?f db_seed)))
      = [''Legend of Code'', ''Bug Hunter 3000'', ''Terminal Quest'']"
    using updateGame_idempotent [of "''3''" ?f db_seed] by (simp add: db_seed_def games_seed_def)
  have "fst (Mutation_updateGame ''1'' ?e db_seed)
      = Some \<lparr>id_game = ''1'', title = ''New'', platform = [''PC'', ''Switch'']\<rparr>"
    by (simp add: Mutation_updateGame_def db_seed_def games_seed_def spread_edits_def)
  with updateGame_idempotent [of "''1''" ?e db_seed]
  have c: "fst (Mutation_updateGame ''1'' ?e (snd (Mutation_updateGame ''1'' ?e db_seed)))
      = Some \<lparr>id_game = ''1'', title = ''New'', platform = [''PC'', ''Switch'']\<rparr>"
    by simp
  from a b c show ?thesis by simp
qed

text \<open>
  Claim C9. \<open>addGame\<close>, \<open>updateGame\<close> and \<open>deleteGame\<close> leave the authors and the reviews
  as they are; \<open>deleteGame\<close> in particular keeps the reviews of the game it removes.
  These three are the only resolvers that return a new store.
\<close>

theorem mutations_frame_authors_reviews:
  "authors (snd (Mutation_addGame random args_game d)) = authors d \<and>
   reviews (snd (Mutation_addGame random args_game d)) = reviews d \<and>
   authors (snd (Mutation_updateGame i e d)) = authors d \<and>
   reviews (snd (Mutation_updateGame i e d)) = reviews d \<and>
   authors (snd (Mutation_deleteGame i d)) = authors d \<and>
   reviews (snd (Mutation_deleteGame i d)) = reviews d"
  by (simp add: Mutation_addGame_def Mutation_updateGame_def Mutation_deleteGame_def Let_def)

text \<open>
  Claim C10. For every draw that \<^verbatim>\<open>Math.random()\<close> may return, the id that \<open>addGame\<close>
  generates is the decimal string of a number from \<open>0\<close> to \<open>9999\<close>: it is not empty, has
  at most four characters, and all of them are digits. So the ids that can be generated
  are at most \<open>10000\<close>, and any list of more than \<open>10000\<close> generated ids has a repetition.
\<close>

theorem addGame_id_range:
  "(Math_random_result random \<longrightarrow>
      (\<exists>n\<le>9999. id_game (fst (Mutation_addGame random args_game d)) = toString n) \<and>
      id_game (fst (Mutation_addGame random args_game d)) \<noteq> [] \<and>
      length (id_game (fst (Mutation_addGame random args_game d))) \<le> 4 \<and>
      set (id_game (fst (Mutation_addGame random args_game d))) \<subseteq> set ''0123456789'') \<and>
   finite generated_ids \<and> card generated_ids \<le> 10000 \<and>
   (set ids \<subseteq> generated_ids \<and> 10000 < length ids \<longrightarrow> \<not> distinct ids)"
proof -
  have a: "Math_random_result random \<longrightarrow>
      (\<exists>n\<le>9999. id_game (fst (Mutation_addGame random args_game d)) = toString n) \<and>
      id_game (fst (Mutation_addGame random args_game d)) \<noteq> [] \<and>
      length (id_game (fst (Mutation_addGame random args_game d))) \<le> 4 \<and>
      set (id_game (fst (Mutation_addGame random args_game d))) \<subseteq> set ''0123456789''"
  proof
    assume r: "Math_random_result random"
    let ?n = "Math_floor (double_mul random ten_thousand)"
    from floor_times_ten_thousand [OF r] have n: "?n \<le> 9999" .
    then have "?n < 10 ^ 4" by simp
    then have "length (toString ?n) \<le> 4" by (rule length_toString [rotated]) simp
    with n toString_not_Nil [of ?n] toString_digits [of ?n]
    show "(\<exists>n\<le>9999. id_game (fst (Mutation_addGame random args_game d)) = toString n) \<and>
      id_game (fst (Mutation_addGame random args_game d)) \<noteq> [] \<and>
      length (id_game (fst (Mutation_addGame random args_game d))) \<le> 4 \<and>
      set (id_game (fst (Mutation_addGame random args_game d))) \<subseteq> set ''0123456789''"
      unfolding id_of_addGame by blast
  qed
  have c: "set ids \<subseteq> generated_ids \<and> 10000 < length ids \<longrightarrow> \<not> distinct ids"
  proof (intro impI notI, elim conjE)
    assume sub: "set ids \<subseteq> generated_ids" and len: "10000 < length ids" and dis: "distinct ids"
    from generated_ids_card have "card (set ids) \<le> card generated_ids"
      using sub by (simp add: card_mono)
    with generated_ids_card distinct_card [OF dis] len show False by simp
  qed
  from a generated_ids_card c show ?thesis by (intro conjI) simp_all
qed

theorem addGame_id_range_witness:
  "Math_random_result \<lparr>mant = 2 ^ 53 - 1, expo = - 53\<rparr> \<and>
   id_game (fst (Mutation_addGame \<lparr>mant = 2 ^ 53 - 1, expo = - 53\<rparr>
     \<lparr>title_in = ''Elden Ring'', platform_in = [''PC'', ''PlayStation'', ''Xbox'']\<rparr> db_seed)) = ''9999'' \<and>
   length ''9999'' \<le> (4::nat) \<and>
   ''1'' \<in> generated_ids \<and> \<not> distinct (replicate 10001 ''1'')"
proof -
  let ?r = "\<lparr>mant = 2 ^ 53 - 1, expo = - 53\<rparr>"
  let ?a = "\<lparr>title_in = ''Elden Ring'', platform_in = [''PC'', ''PlayStation'', ''Xbox'']\<rparr>"
  have r: "Math_random_result ?r"
    by (simp add: Math_random_result_def is_double_def below_one_def)
  have i: "id_game (fst (Mutation_addGame ?r ?a db_seed)) = ''9999''"
    unfolding id_of_addGame largest_draw
    by (simp add: toString_small toString_large digit_char_def)
  have m: "''1'' \<in> generated_ids"
  proof -
    have "id_game (fst (Mutation_addGame \<lparr>mant = 1, expo = - 13\<rparr> ?a db_seed)) = ''1''"
      unfolding id_of_addGame draw_one by (simp add: toString_small digit_char_def)
    moreover have "Math_random_result \<lparr>mant = 1, expo = - 13\<rparr>"
      by (simp add: Math_random_result_def is_double_def below_one_def)
    ultimately have "\<exists>random args_game d.
        ''1'' = id_game (fst (Mutation_addGame random args_game d)) \<and> Math_random_result random"
      by metis
    then show ?thesis by (simp only: generated_ids_def mem_Collect_eq)
  qed
  from addGame_id_range [of ?r ?a db_seed "replicate 10001 ''1''"] r i m
  show ?thesis by simp
qed

end
